theory Spec2Isabelle
  imports Complex_Main
begin

section \<open>Data model of the loop-closing engine\<close>

text \<open>
  The development follows \<^verbatim>\<open>src/src/loop_closing.cpp\<close> (class \<^verbatim>\<open>slam::LoopClosing\<close>).
  Conventions of the embedding:
  \<^item> C++ \<^verbatim>\<open>int\<close> values (cluster ids, frame ids, counters) are unbounded \<^typ>\<open>int\<close>, container
    sizes are \<^typ>\<open>nat\<close>; every container is taken to hold fewer than \<open>2^31\<close> elements, every
    id to lie strictly inside the \<^verbatim>\<open>int\<close> range and every finite match percentage to fit an
    \<^verbatim>\<open>int\<close>, so that no cast or subtraction of the source wraps around;
  \<^item> \<^verbatim>\<open>float\<close> and \<^verbatim>\<open>double\<close> values are \<^typ>\<open>real\<close>; floating-point rounding is not modelled;
  \<^item> an out-of-range \<^verbatim>\<open>operator[]\<close>, \<^verbatim>\<open>front()\<close> of an empty list and the conversion of a
    non-finite floating-point value to \<^verbatim>\<open>int\<close> are undefined behaviour in C++; each is a branch
    of the model that yields an error value;
  \<^item> the mutexes are not modelled: every operation on the queue is one atomic step.
\<close>

datatype lc_error = EmptyQueue | OutOfRange | FloatToIntUndefined | SolverException

type_synonym point2f = "real \<times> real"
type_synonym point3f = "real \<times> real \<times> real"

text \<open>A \<^verbatim>\<open>cv::Mat\<close> is the list of its rows; \<^verbatim>\<open>.rows\<close> is the length of that list.\<close>

type_synonym mat = "real list list"

definition rows :: "mat \<Rightarrow> int" where
  "rows m = int (length m)"

text \<open>\<^verbatim>\<open>cv::KeyPoint\<close>: only the member \<^verbatim>\<open>pt\<close> is read by the engine.\<close>

record keypoint =
  pt :: point2f

text \<open>\<^verbatim>\<open>cv::DMatch\<close>: row of the query descriptors and row of the train descriptors.\<close>

record dmatch =
  queryIdx :: int
  trainIdx :: int

text \<open>
  \<^verbatim>\<open>tf::Transform\<close>: a rotation matrix (three rows) and a translation. Applying it to a
  vector (\<^verbatim>\<open>operator*\<close>) is \<open>basis \<cdot> v + origin\<close>.
\<close>

record tf_transform =
  m_basis :: "point3f \<times> point3f \<times> point3f"
  m_origin :: point3f

definition dot3 :: "point3f \<Rightarrow> point3f \<Rightarrow> real" where
  "dot3 a b = (case a of (ax, ay, az) \<Rightarrow> case b of (bx, by, bz) \<Rightarrow> ax * bx + ay * by + az * bz)"

definition tf_apply :: "tf_transform \<Rightarrow> point3f \<Rightarrow> point3f" where
  "tf_apply t v =
     (case m_basis t of (r0, r1, r2) \<Rightarrow>
      case m_origin t of (ox, oy, oz) \<Rightarrow>
        (dot3 r0 v + ox, dot3 r1 v + oy, dot3 r2 v + oz))"

text \<open>
  The class \<^verbatim>\<open>Cluster\<close> is declared outside the sources at hand; its getters are the fields
  of the record. The constructor call in \<^verbatim>\<open>readCluster\<close> gives the order
  (id, frame id, pose, keypoints, ORB descriptors, SIFT descriptors, 3-D points).
\<close>

record cluster =
  getId :: int
  getFrameId :: int
  getPose :: tf_transform
  getKp :: "keypoint list"
  getOrb :: mat
  getSift :: mat
  getPoints :: "point3f list"

definition Cluster :: "int \<Rightarrow> int \<Rightarrow> tf_transform \<Rightarrow> keypoint list \<Rightarrow> mat \<Rightarrow> mat \<Rightarrow> point3f list \<Rightarrow> cluster" where
  "Cluster i f p k od sd ps =
     \<lparr>getId = i, getFrameId = f, getPose = p, getKp = k, getOrb = od, getSift = sd, getPoints = ps\<rparr>"

text \<open>
  What one \<^verbatim>\<open>.yml\<close> file of the execution directory holds after \<^verbatim>\<open>processNewCluster\<close>
  wrote it. A file that exists but cannot be opened for reading is \<open>Unreadable\<close>.
\<close>

record yml =
  yml_frame_id :: int
  yml_pose :: mat
  yml_kp :: "keypoint list"
  yml_desc :: mat
  yml_threed :: "point3f list"

datatype stored_file = Unreadable | Readable yml

text \<open>
  The collaborators that are not among the sources (constants, \<^verbatim>\<open>Tools\<close>, the \<^verbatim>\<open>Hash\<close> class,
  OpenCV's pose solver, the default constructor of \<^verbatim>\<open>Cluster\<close>) are parameters of the model.
  \<open>hash_getHash\<close> takes the descriptor set the hash was initialised with and the descriptor
  set to sign. \<open>solvePnPRansac\<close> takes the 3-D points, the 2-D points, the camera matrix and
  the inlier cap, and yields the inlier indices, or \<open>None\<close> when the solver throws.
\<close>

record externals =
  LC_NEIGHBORS :: nat
  MAX_INLIERS :: int
  Cluster_default :: cluster
  ratioMatching :: "mat \<Rightarrow> mat \<Rightarrow> dmatch list"
  transformToMat :: "tf_transform \<Rightarrow> mat"
  matToTransform :: "mat \<Rightarrow> tf_transform"
  hash_getHash :: "mat \<Rightarrow> mat \<Rightarrow> real list"
  hash_match :: "real list \<Rightarrow> real list \<Rightarrow> real"
  solvePnPRansac :: "point3f list \<Rightarrow> point2f list \<Rightarrow> mat \<Rightarrow> int \<Rightarrow> int list option"

text \<open>
  The members of \<^verbatim>\<open>LoopClosing\<close>. \<open>hash_init\<close> is the descriptor set the hash engine was
  initialised with (\<open>None\<close> before \<^verbatim>\<open>hash_.init\<close>), \<open>files\<close> the content of the execution
  directory by cluster id, \<open>camera_matrix\<close> and \<open>graph_edges\<close> the part of the graph behind
  the pointer \<^verbatim>\<open>graph_\<close> that the engine can reach (\<^verbatim>\<open>getCameraMatrix\<close>, \<^verbatim>\<open>addEdge\<close>).
\<close>

record lc_state =
  cluster_queue :: "cluster list"
  c_cluster :: cluster
  hash_init :: "mat option"
  hash_table :: "(int \<times> real list) list"
  lc_found :: "(int \<times> int) list"
  files :: "int \<rightharpoonup> stored_file"
  camera_matrix :: mat
  graph_edges :: "(int \<times> int \<times> tf_transform \<times> int) list"

text \<open>\<^verbatim>\<open>operator[]\<close> of a vector with an \<^verbatim>\<open>int\<close> index.\<close>

definition vec_at :: "'a list \<Rightarrow> int \<Rightarrow> lc_error + 'a" where
  "vec_at xs i = (if 0 \<le> i \<and> i < int (length xs) then Inr (xs ! nat i) else Inl OutOfRange)"

section \<open>The global candidate search\<close>

text \<open>
  Modelled from the spec: \<^verbatim>\<open>Tools::sortByMatching\<close> (\<^verbatim>\<open>tools.h\<close> is not among the sources).
  The spec: "Sort descending by score (ties broken by lower id for determinism)".
\<close>

definition sortByMatching :: "int \<times> real \<Rightarrow> int \<times> real \<Rightarrow> bool" where
  "sortByMatching d1 d2 = (snd d1 > snd d2 \<or> (snd d1 = snd d2 \<and> fst d1 < fst d2))"

text \<open>
  \<^verbatim>\<open>std::sort\<close> with a comparator, as insertion into a sorted list. (The order of elements
  that the comparator does not separate is unspecified for \<^verbatim>\<open>std::sort\<close>; under
  \<open>sortByMatching\<close> two such elements are equal.)
\<close>

fun insert_sorted :: "('a \<Rightarrow> 'a \<Rightarrow> bool) \<Rightarrow> 'a \<Rightarrow> 'a list \<Rightarrow> 'a list" where
  "insert_sorted cmp x [] = [x]"
| "insert_sorted cmp x (y # ys) = (if cmp x y then x # y # ys else y # insert_sorted cmp x ys)"

definition std_sort :: "('a \<Rightarrow> 'a \<Rightarrow> bool) \<Rightarrow> 'a list \<Rightarrow> 'a list" where
  "std_sort cmp xs = foldr (insert_sorted cmp) xs []"

text \<open>The order of a list that is descending by score, ties broken by the lower id.\<close>

definition ranked_before :: "int \<times> real \<Rightarrow> int \<times> real \<Rightarrow> bool" where
  "ranked_before d1 d2 = (snd d1 > snd d2 \<or> (snd d1 = snd d2 \<and> fst d1 \<le> fst d2))"

text \<open>The first loop of \<^verbatim>\<open>getCandidates\<close>: the ids already paired with \<open>cluster_id\<close>.\<close>

fun no_candidates_loop :: "int \<Rightarrow> (int \<times> int) list \<Rightarrow> int list \<Rightarrow> int list" where
  "no_candidates_loop cluster_id [] no_candidates = no_candidates"
| "no_candidates_loop cluster_id (lc # lcs) no_candidates =
     (let nc1 = (if fst lc = cluster_id then no_candidates @ [snd lc] else no_candidates);
          nc2 = (if snd lc = cluster_id then nc1 @ [fst lc] else nc1)
      in no_candidates_loop cluster_id lcs nc2)"

text \<open>
  The second loop, over the indices \<open>i\<close> it is run with. The first test is the source's
  \<^verbatim>\<open>if (i > hash_table_.size()-1) continue;\<close>; the loop is reached with a table that is
  not empty, where the unsigned subtraction does not wrap.
\<close>

fun matching_loop ::
  "externals \<Rightarrow> (int \<times> real list) list \<Rightarrow> int \<Rightarrow> int list \<Rightarrow> real list \<Rightarrow> nat list \<Rightarrow>
   (int \<times> real) list \<Rightarrow> (int \<times> real) list" where
  "matching_loop ext ht cluster_id no_candidates hash_q [] all_matchings = all_matchings"
| "matching_loop ext ht cluster_id no_candidates hash_q (i # is) all_matchings =
     (if i > length ht - 1 then matching_loop ext ht cluster_id no_candidates hash_q is all_matchings
      else if fst (ht ! i) = cluster_id
        then matching_loop ext ht cluster_id no_candidates hash_q is all_matchings
      else if fst (ht ! i) \<in> set no_candidates
        then matching_loop ext ht cluster_id no_candidates hash_q is all_matchings
      else matching_loop ext ht cluster_id no_candidates hash_q is
             (all_matchings @ [(fst (ht ! i), hash_match ext hash_q (snd (ht ! i)))]))"

definition getCandidates :: "externals \<Rightarrow> lc_state \<Rightarrow> int \<Rightarrow> lc_error + (int \<times> real) list" where
  "getCandidates ext s cluster_id =
     (if int (length (hash_table s)) \<le> int (LC_NEIGHBORS ext) then Inr []
      else
        let no_candidates = no_candidates_loop cluster_id (lc_found s) [] in
        case vec_at (hash_table s) cluster_id of
          Inl e \<Rightarrow> Inl e
        | Inr q \<Rightarrow>
            let hash_q = snd q;
                all_matchings =
                  matching_loop ext (hash_table s) cluster_id no_candidates hash_q
                    [0 ..< length (hash_table s) - LC_NEIGHBORS ext - 1] [];
                sorted_matchings = std_sort sortByMatching all_matchings;
                max_size = (if 5 > length sorted_matchings then length sorted_matchings else 5)
            in Inr (take max_size sorted_matchings))"

section \<open>The cluster queue and ingestion\<close>

definition addClusterToQueue :: "cluster \<Rightarrow> lc_state \<Rightarrow> lc_state" where
  "addClusterToQueue c s = s\<lparr>cluster_queue := cluster_queue s @ [c]\<rparr>"

definition checkNewClusterInQueue :: "lc_state \<Rightarrow> bool" where
  "checkNewClusterInQueue s = (\<not> (cluster_queue s = []))"

text \<open>
  \<^verbatim>\<open>processNewCluster\<close>: take the front of the queue, initialise the hash on first use,
  append the signature to the hash table, write the cluster's file. \<^verbatim>\<open>front()\<close> of an empty
  list is undefined. The write of the file is taken to succeed.
\<close>

definition processNewCluster :: "externals \<Rightarrow> lc_state \<Rightarrow> lc_error + lc_state" where
  "processNewCluster ext s =
     (case cluster_queue s of
        [] \<Rightarrow> Inl EmptyQueue
      | c # q \<Rightarrow>
          let s1 = s\<lparr>c_cluster := c, cluster_queue := q\<rparr>;
              h = (case hash_init s1 of None \<Rightarrow> getSift c | Some h0 \<Rightarrow> h0);
              s2 = s1\<lparr>hash_init := Some h\<rparr>;
              s3 = s2\<lparr>hash_table := hash_table s2 @ [(getId c, hash_getHash ext h (getSift c))]\<rparr>;
              s4 = s3\<lparr>files := (files s3)(getId c \<mapsto> Readable
                      \<lparr>yml_frame_id = getFrameId c, yml_pose = transformToMat ext (getPose c),
                       yml_kp = getKp c, yml_desc = getOrb c, yml_threed = getPoints c\<rparr>)\<rparr>
          in Inr s4)"

text \<open>
  A schedule of the two queue operations, as the producer and \<^verbatim>\<open>run\<close> interleave them:
  \<^verbatim>\<open>run\<close> calls \<^verbatim>\<open>processNewCluster\<close> only after \<^verbatim>\<open>checkNewClusterInQueue\<close>. The result
  lists the clusters that became the current cluster, in the order in which they did.
\<close>

datatype queue_event = Enqueue cluster | ProcessNext

fun run_schedule :: "externals \<Rightarrow> queue_event list \<Rightarrow> lc_state \<Rightarrow> lc_error + (cluster list \<times> lc_state)" where
  "run_schedule ext [] s = Inr ([], s)"
| "run_schedule ext (Enqueue c # es) s = run_schedule ext es (addClusterToQueue c s)"
| "run_schedule ext (ProcessNext # es) s =
     (if checkNewClusterInQueue s then
        (case processNewCluster ext s of
           Inl e \<Rightarrow> Inl e
         | Inr s' \<Rightarrow>
             (case run_schedule ext es s' of
                Inl e \<Rightarrow> Inl e
              | Inr (out, s'') \<Rightarrow> Inr (c_cluster s' # out, s'')))
      else run_schedule ext es s)"

fun enqueued :: "queue_event list \<Rightarrow> cluster list" where
  "enqueued [] = []"
| "enqueued (Enqueue c # es) = c # enqueued es"
| "enqueued (ProcessNext # es) = enqueued es"

section \<open>Reading a cluster back\<close>

text \<open>
  \<^verbatim>\<open>readCluster\<close> returns the default-constructed cluster when the file does not exist or
  cannot be opened, and the cluster rebuilt from the file otherwise (with an empty SIFT
  matrix). The engine's state is threaded through.
\<close>

definition readCluster :: "externals \<Rightarrow> lc_state \<Rightarrow> int \<Rightarrow> cluster \<times> lc_state" where
  "readCluster ext s i =
     (case files s i of
        None \<Rightarrow> (Cluster_default ext, s)
      | Some Unreadable \<Rightarrow> (Cluster_default ext, s)
      | Some (Readable y) \<Rightarrow>
          (Cluster i (yml_frame_id y) (matToTransform ext (yml_pose y)) (yml_kp y) (yml_desc y) []
             (yml_threed y), s))"

section \<open>The neighborhood search\<close>

text \<open>
  \<^verbatim>\<open>round(100.0 * (float) matches.size() / (float) min(size_c, size_n))\<close> converted to
  \<^verbatim>\<open>int\<close>. With a zero divisor the quotient is infinite or not a number, and its conversion
  to \<^verbatim>\<open>int\<close> is undefined. The quotient is not negative, where \<^verbatim>\<open>round\<close> (half away from
  zero) is \<^const>\<open>round\<close>.
\<close>

definition m_percentage :: "nat \<Rightarrow> int \<Rightarrow> int option" where
  "m_percentage n_matches size_min =
     (if size_min = 0 then None
      else Some (round (100 * real n_matches / real_of_int size_min)))"

text \<open>The loop over the matches: one 2-D point and one 3-D world point per match.\<close>

fun matches_loop ::
  "keypoint list \<Rightarrow> point3f list \<Rightarrow> tf_transform \<Rightarrow> dmatch list \<Rightarrow>
   point2f list \<times> point3f list \<Rightarrow> lc_error + (point2f list \<times> point3f list)" where
  "matches_loop kp neighbor_points pose [] pools = Inr pools"
| "matches_loop kp neighbor_points pose (m # ms) pools =
     (case vec_at kp (queryIdx m) of
        Inl e \<Rightarrow> Inl e
      | Inr k \<Rightarrow>
          (case vec_at neighbor_points (trainIdx m) of
             Inl e \<Rightarrow> Inl e
           | Inr p \<Rightarrow>
               matches_loop kp neighbor_points pose ms
                 (fst pools @ [pt k], snd pools @ [tf_apply pose p])))"

text \<open>What is done with a neighbor of another frame, up to the update of the two pools.\<close>

definition match_neighbor ::
  "externals \<Rightarrow> cluster \<Rightarrow> cluster \<Rightarrow> point2f list \<times> point3f list \<Rightarrow>
   lc_error + (point2f list \<times> point3f list)" where
  "match_neighbor ext cur neighbor pools =
     (let matches = ratioMatching ext (getOrb cur) (getOrb neighbor);
          size_c = rows (getOrb cur);
          size_n = rows (getOrb neighbor)
      in case m_percentage (length matches) (min size_c size_n) of
           None \<Rightarrow> Inl FloatToIntUndefined
         | Some pct \<Rightarrow>
             if pct > 50
             then matches_loop (getKp cur) (getPoints neighbor) (getPose neighbor) matches pools
             else Inr pools)"

text \<open>
  The variables of the \<^verbatim>\<open>while\<close> loop. \<open>visited\<close> and \<open>matched_against\<close> are not in the
  source: they log, in order, the ids handed to \<^verbatim>\<open>readCluster\<close> and the ids whose
  descriptors were handed to \<^verbatim>\<open>ratioMatching\<close>. \<open>failure\<close> is set by the first iteration
  that runs into undefined behaviour. Such an iteration leaves the pools as they were, and
  the walk goes on, with the neighbor counted and the id decremented: the loop of the
  source has no exit there. The pools are then no longer what the source computes, and
  \<^verbatim>\<open>searchInNeigborhood\<close> yields the failure after the loop.
\<close>

record nb_state =
  processed_neighbors :: int
  neighbor_id :: int
  matched_kp :: "point2f list"
  matched_points :: "point3f list"
  visited :: "int list"
  matched_against :: "int list"
  failure :: "lc_error option"

definition nb_init :: "lc_state \<Rightarrow> nb_state" where
  "nb_init s =
     \<lparr>processed_neighbors = 0, neighbor_id = getId (c_cluster s) - 1,
      matched_kp = [], matched_points = [], visited = [], matched_against = [],
      failure = None\<rparr>"

definition nb_body :: "externals \<Rightarrow> lc_state \<Rightarrow> nb_state \<Rightarrow> nb_state" where
  "nb_body ext s st =
     (let neighbor = fst (readCluster ext s (neighbor_id st));
          st1 = st\<lparr>visited := visited st @ [neighbor_id st]\<rparr>
      in if getFrameId neighbor \<noteq> getFrameId (c_cluster s) then
           (let st2 = st1\<lparr>matched_against := matched_against st1 @ [neighbor_id st]\<rparr>
            in case match_neighbor ext (c_cluster s) neighbor (matched_kp st, matched_points st) of
                 Inl e \<Rightarrow>
                   st2\<lparr>failure := (case failure st of None \<Rightarrow> Some e | Some e0 \<Rightarrow> Some e0),
                       processed_neighbors := processed_neighbors st + 1,
                       neighbor_id := neighbor_id st - 1\<rparr>
               | Inr pools \<Rightarrow>
                   st2\<lparr>matched_kp := fst pools, matched_points := snd pools,
                       processed_neighbors := processed_neighbors st + 1,
                       neighbor_id := neighbor_id st - 1\<rparr>)
         else st1\<lparr>neighbor_id := neighbor_id st - 1\<rparr>)"

definition nb_continue :: "externals \<Rightarrow> nb_state \<Rightarrow> bool" where
  "nb_continue ext st =
     (processed_neighbors st < int (LC_NEIGHBORS ext) \<and> neighbor_id st \<ge> 0)"

function neighbors_loop :: "externals \<Rightarrow> lc_state \<Rightarrow> nb_state \<Rightarrow> nb_state" where
  "neighbors_loop ext s st =
     (if nb_continue ext st then neighbors_loop ext s (nb_body ext s st) else st)"
  by pat_completeness auto
termination
  by (relation "measure (\<lambda>(ext, s, st). nat (neighbor_id st + 1))")
     (auto simp: nb_continue_def nb_body_def Let_def split: sum.splits)

declare neighbors_loop.simps [simp del]

text \<open>
  \<^verbatim>\<open>searchInNeigborhood\<close>: the loop, then the pose solver on the two pools. The result is
  what the function logs: the neighbors processed, the size of the pool and the number of
  inliers.
\<close>

definition searchInNeigborhood :: "externals \<Rightarrow> lc_state \<Rightarrow> lc_error + (int \<times> nat \<times> nat)" where
  "searchInNeigborhood ext s =
     (let st = neighbors_loop ext s (nb_init s)
      in case failure st of
           Some e \<Rightarrow> Inl e
         | None \<Rightarrow>
             (case solvePnPRansac ext (matched_points st) (matched_kp st) (camera_matrix s)
                     (MAX_INLIERS ext) of
                None \<Rightarrow> Inl SolverException
              | Some inliers \<Rightarrow>
                  Inr (processed_neighbors st, length (matched_points st), length inliers)))"

section \<open>The search by hash and one turn of the engine\<close>

text \<open>
  \<^verbatim>\<open>searchByHash\<close> fetches the candidates and returns when there are none; the body ends
  right after that test.
\<close>

definition searchByHash :: "externals \<Rightarrow> lc_state \<Rightarrow> lc_error + lc_state" where
  "searchByHash ext s =
     (case getCandidates ext s (getId (c_cluster s)) of
        Inl e \<Rightarrow> Inl e
      | Inr hash_matching \<Rightarrow> if length hash_matching = 0 then Inr s else Inr s)"

text \<open>The body of the loop of \<^verbatim>\<open>run\<close>, without the two publishers.\<close>

definition run_iteration :: "externals \<Rightarrow> lc_state \<Rightarrow> lc_error + lc_state" where
  "run_iteration ext s =
     (if checkNewClusterInQueue s then
        (case processNewCluster ext s of
           Inl e \<Rightarrow> Inl e
         | Inr s1 \<Rightarrow>
             (case searchInNeigborhood ext s1 of
                Inl e \<Rightarrow> Inl e
              | Inr report \<Rightarrow> searchByHash ext s1))
      else Inr s)"

section \<open>Notions for stating the walk over the neighbors\<close>

text \<open>The ids \<open>hi, hi - 1, \<dots>, lo\<close>.\<close>

definition ids_down :: "int \<Rightarrow> int \<Rightarrow> int list" where
  "ids_down hi lo = rev [lo..hi]"

text \<open>The cluster read back for id \<open>j\<close> has another frame id than the current cluster.\<close>

definition other_frame :: "externals \<Rightarrow> lc_state \<Rightarrow> int \<Rightarrow> bool" where
  "other_frame ext s j = (getFrameId (fst (readCluster ext s j)) \<noteq> getFrameId (c_cluster s))"

text \<open>
  The pools and the failure that matching the current cluster against the clusters read
  back for the ids \<open>js\<close>, one after the other, arrives at: a matching that runs into
  undefined behaviour leaves the pools as they are, and the first such is the failure.
\<close>

fun pool_neighbors ::
  "externals \<Rightarrow> lc_state \<Rightarrow> int list \<Rightarrow> (point2f list \<times> point3f list) \<times> lc_error option \<Rightarrow>
   (point2f list \<times> point3f list) \<times> lc_error option" where
  "pool_neighbors ext s [] acc = acc"
| "pool_neighbors ext s (j # js) acc =
     (case match_neighbor ext (c_cluster s) (fst (readCluster ext s j)) (fst acc) of
        Inl e \<Rightarrow>
          pool_neighbors ext s js
            (fst acc, (case snd acc of None \<Rightarrow> Some e | Some e0 \<Rightarrow> Some e0))
      | Inr pools \<Rightarrow> pool_neighbors ext s js (pools, snd acc))"

text \<open>The invariant of the \<^verbatim>\<open>while\<close> loop.\<close>

definition nb_inv :: "externals \<Rightarrow> lc_state \<Rightarrow> nb_state \<Rightarrow> bool" where
  "nb_inv ext s st =
     (neighbor_id st \<le> getId (c_cluster s) - 1
      \<and> min (- 1) (getId (c_cluster s) - 1) \<le> neighbor_id st
      \<and> visited st = ids_down (getId (c_cluster s) - 1) (neighbor_id st + 1)
      \<and> matched_against st = filter (other_frame ext s) (visited st)
      \<and> processed_neighbors st = int (length (matched_against st))
      \<and> length (matched_against st) \<le> LC_NEIGHBORS ext
      \<and> (visited st \<noteq> [] \<longrightarrow>
            length (filter (other_frame ext s) (butlast (visited st))) < LC_NEIGHBORS ext)
      \<and> ((matched_kp st, matched_points st), failure st)
          = pool_neighbors ext s (matched_against st) (([], []), None))"

section \<open>Concrete inputs\<close>

text \<open>
  A configuration with \<open>LC_NEIGHBORS = 5\<close>, a matcher that pairs the first rows of the query
  with the same rows of the train set (as many as the train set has rows beyond the first
  fifty), a similarity that is the negated distance of the first components, and a solver
  that throws on fewer than four correspondences and finds every correspondence an inlier
  otherwise.
\<close>

definition ex_identity :: tf_transform where
  "ex_identity = \<lparr>m_basis = ((1, 0, 0), (0, 1, 0), (0, 0, 1)), m_origin = (0, 0, 0)\<rparr>"

definition ex_ext :: externals where
  "ex_ext =
     \<lparr>LC_NEIGHBORS = 5, MAX_INLIERS = 100,
      Cluster_default = Cluster (- 1) (- 1) ex_identity [] [] [] [],
      ratioMatching = (\<lambda>q t. map (\<lambda>i. \<lparr>queryIdx = int i, trainIdx = int i\<rparr>) [0 ..< length t - 50]),
      transformToMat = (\<lambda>t. []),
      matToTransform = (\<lambda>m. ex_identity),
      hash_getHash = (\<lambda>h d. case d of [] \<Rightarrow> [] | r # _ \<Rightarrow> r),
      hash_match = (\<lambda>a b. case a of [] \<Rightarrow> 0 | x # _ \<Rightarrow> (case b of [] \<Rightarrow> 0 | y # _ \<Rightarrow> - \<bar>x - y\<bar>)),
      solvePnPRansac = (\<lambda>ps ks cm n. if length ps < 4 then None else Some (map int [0 ..< length ps]))\<rparr>"

text \<open>
  Eight clusters \<open>0 \<dots> 7\<close> have been processed, cluster \<open>7\<close> is the current one, and the pair
  \<open>(7, 1)\<close> is a recorded loop closing. Of the files only that of cluster \<open>2\<close> is left, and
  it cannot be opened. \<open>ex_short\<close> is the engine two clusters earlier, with six entries in
  the hash table and cluster \<open>5\<close> the current one.
\<close>

definition ex_cluster :: "int \<Rightarrow> cluster" where
  "ex_cluster i = Cluster i i ex_identity [] [] [] []"

definition ex_state :: lc_state where
  "ex_state =
     \<lparr>cluster_queue = [], c_cluster = ex_cluster 7, hash_init = Some [],
      hash_table = [(0, [4]), (1, [7]), (2, [1]), (3, [2]), (4, [3]), (5, [5]), (6, [6]), (7, [8])],
      lc_found = [(7, 1)], files = [2 \<mapsto> Unreadable], camera_matrix = [], graph_edges = []\<rparr>"

definition ex_short :: lc_state where
  "ex_short = ex_state\<lparr>c_cluster := ex_cluster 5, hash_table := take 6 (hash_table ex_state)\<rparr>"

text \<open>Thirteen processed clusters, no loop closing yet, two pairs of equal scores.\<close>

definition ex_long :: lc_state where
  "ex_long =
     ex_state\<lparr>c_cluster := ex_cluster 12, lc_found := [],
       hash_table := [(0, [4]), (1, [7]), (2, [13]), (3, [10]), (4, [2]), (5, [9]), (6, [16]),
                      (7, [0]), (8, [0]), (9, [0]), (10, [0]), (11, [0]), (12, [10])]\<rparr>"

text \<open>An engine with two clusters waiting in the queue.\<close>

definition ex_queue :: lc_state where
  "ex_queue = ex_state\<lparr>cluster_queue := [ex_cluster 8, ex_cluster 9]\<rparr>"

text \<open>
  An engine for the neighborhood search. Every cluster has its keypoints at \<open>(5, 6)\<close> and
  its 3-D points at \<open>(1, 2, 3)\<close>. Cluster \<open>8\<close> of frame \<open>4\<close> with 101 descriptors is the
  current one; cluster \<open>7\<close> is of the same frame, cluster \<open>6\<close> has 102 descriptors (52
  matches), cluster \<open>5\<close> has 101 (51 matches), the older ones have a single descriptor.
  \<open>ex_at k\<close> is the loop state at its start, about to read cluster \<open>k\<close>. \<open>ex_first\<close> is the
  engine at its very first cluster, id \<open>0\<close>. In \<open>ex_revisit\<close> thirteen clusters of 102
  descriptors each have been processed, and the current one, \<open>12\<close>, has the signature of
  cluster \<open>3\<close>.
\<close>

definition ex_desc :: "nat \<Rightarrow> mat" where
  "ex_desc n = replicate n []"

definition ex_features :: "int \<Rightarrow> int \<Rightarrow> nat \<Rightarrow> mat \<Rightarrow> cluster" where
  "ex_features i f n sd =
     Cluster i f ex_identity (replicate n \<lparr>pt = (5, 6)\<rparr>) (ex_desc n) sd (replicate n (1, 2, 3))"

definition ex_file :: "int \<Rightarrow> nat \<Rightarrow> stored_file" where
  "ex_file f n =
     Readable \<lparr>yml_frame_id = f, yml_pose = [], yml_kp = replicate n \<lparr>pt = (5, 6)\<rparr>,
               yml_desc = ex_desc n, yml_threed = replicate n (1, 2, 3)\<rparr>"

definition ex_walk :: lc_state where
  "ex_walk =
     \<lparr>cluster_queue = [], c_cluster = ex_features 8 4 101 [],
      hash_init = Some [],
      hash_table = [(0, []), (1, []), (2, []), (3, []), (4, []), (5, []), (6, []), (7, []), (8, [])],
      lc_found = [],
      files = [8 \<mapsto> ex_file 4 101, 7 \<mapsto> ex_file 4 101, 6 \<mapsto> ex_file 3 102, 5 \<mapsto> ex_file 3 101,
               4 \<mapsto> ex_file 2 1, 3 \<mapsto> ex_file 2 1, 2 \<mapsto> ex_file 1 1, 1 \<mapsto> ex_file 1 1,
               0 \<mapsto> ex_file 0 1],
      camera_matrix = [], graph_edges = []\<rparr>"

text \<open>The same engine after the file of cluster \<open>5\<close> has gone.\<close>

definition ex_gap :: lc_state where
  "ex_gap = ex_walk\<lparr>files := (files ex_walk)(5 := None)\<rparr>"


definition ex_first :: lc_state where
  "ex_first =
     ex_walk\<lparr>c_cluster := ex_features 0 0 101 [], hash_table := [(0, [])],
             files := [0 \<mapsto> ex_file 0 101]\<rparr>"

definition ex_revisit :: lc_state where
  "ex_revisit =
     ex_long\<lparr>c_cluster := ex_features 12 12 102 [[10]],
             files := (\<lambda>i. if 0 \<le> i \<and> i \<le> 12 then Some (ex_file i 102) else None)\<rparr>"

section \<open>Properties of the candidate search\<close>

lemma set_insert_sorted: "set (insert_sorted cmp x ys) = insert x (set ys)"
  by (induction ys) auto

lemma set_std_sort: "set (std_sort cmp xs) = set xs"
  unfolding std_sort_def by (induction xs) (simp_all add: set_insert_sorted)

lemma matching_loop_ids:
  "fst ` set (matching_loop ext ht cid nc hq is acc)
     \<subseteq> fst ` set acc \<union> {j. j \<noteq> cid \<and> j \<notin> set nc}"
proof (induction "is" arbitrary: acc)
  case Nil
  show ?case by simp
next
  case (Cons i "is")
  show ?case using Cons.IH [of acc]
      Cons.IH [of "acc @ [(fst (ht ! i), hash_match ext hq (snd (ht ! i)))]"]
    by (simp only: matching_loop.simps split: if_splits) auto
qed

lemma getCandidates_ids:
  assumes "getCandidates ext s cid = Inr cs"
  shows "fst ` set cs \<subseteq> {j. j \<noteq> cid \<and> j \<notin> set (no_candidates_loop cid (lc_found s) [])}"
proof (cases "int (length (hash_table s)) \<le> int (LC_NEIGHBORS ext)")
  case True
  with assms show ?thesis by (simp add: getCandidates_def)
next
  case False
  from assms False obtain q where q: "vec_at (hash_table s) cid = Inr q"
    by (auto simp: getCandidates_def Let_def split: sum.splits)
  let ?all = "matching_loop ext (hash_table s) cid (no_candidates_loop cid (lc_found s) [])
                (snd q) [0 ..< length (hash_table s) - LC_NEIGHBORS ext - 1] []"
  from assms False q have "set cs \<subseteq> set (std_sort sortByMatching ?all)"
    by (auto simp: getCandidates_def Let_def dest: in_set_takeD)
  then have "set cs \<subseteq> set ?all" by (simp add: set_std_sort)
  then have "fst ` set cs \<subseteq> fst ` set ?all" by blast
  also have "\<dots> \<subseteq> {j. j \<noteq> cid \<and> j \<notin> set (no_candidates_loop cid (lc_found s) [])}"
    using matching_loop_ids [of ext "hash_table s" cid _ "snd q" _ "[]"] by simp
  finally show ?thesis .
qed


text \<open>For a query id that is an index of the hash table the search returns a list.\<close>

lemma getCandidates_returns:
  assumes "0 \<le> cid" and "cid < int (length (hash_table s))"
  shows "\<exists>cs. getCandidates ext s cid = Inr cs"
  using assms by (simp add: getCandidates_def vec_at_def Let_def)

lemma no_candidates_loop_set:
  "set (no_candidates_loop cid lcs acc)
     = set acc \<union> {b. (cid, b) \<in> set lcs} \<union> {a. (a, cid) \<in> set lcs}"
proof (induction lcs arbitrary: acc)
  case Nil
  show ?case by simp
next
  case (Cons lc lcs)
  obtain a b where lc: "lc = (a, b)" by (cases lc)
  show ?case unfolding no_candidates_loop.simps Let_def Cons.IH lc by auto
qed

lemma ex_getCandidates: "getCandidates ex_ext ex_state 7 = Inr [(0, - 4)]"
  by (simp add: getCandidates_def ex_ext_def ex_state_def vec_at_def std_sort_def Let_def
      upt_conv_Cons)

lemma ex_getCandidates_1: "getCandidates ex_ext ex_state 1 = Inr [(0, - 3)]"
  by (simp add: getCandidates_def ex_ext_def ex_state_def vec_at_def std_sort_def Let_def
      upt_conv_Cons)

text \<open>
  Claim C6. Whatever the query id and the hash table, a candidate list returned by
  \<^verbatim>\<open>getCandidates\<close> does not contain the query id.
\<close>

theorem getCandidates_never_self:
  "getCandidates ext s cluster_id = Inr candidates \<Longrightarrow> cluster_id \<notin> fst ` set candidates"
  using getCandidates_ids [of ext s cluster_id candidates] by blast

theorem getCandidates_never_self_witness:
  "getCandidates ex_ext ex_state 7 = Inr [(0, - 4)] \<and> 7 \<notin> fst ` set [(0 :: int, - 4 :: real)]"
  using getCandidates_never_self [OF ex_getCandidates] ex_getCandidates by simp

text \<open>
  Claim C4. For a recorded loop closing \<open>(a, b)\<close>: a candidate list returned for the query
  \<open>a\<close> does not contain \<open>b\<close>, and one returned for the query \<open>b\<close> does not contain \<open>a\<close>.
\<close>

theorem getCandidates_excludes_loop_closings:
  assumes "(a, b) \<in> set (lc_found s)"
  shows "(getCandidates ext s a = Inr ca \<longrightarrow> b \<notin> fst ` set ca)
       \<and> (getCandidates ext s b = Inr cb \<longrightarrow> a \<notin> fst ` set cb)"
proof (intro conjI impI)
  assume "getCandidates ext s a = Inr ca"
  from getCandidates_ids [OF this] assms show "b \<notin> fst ` set ca"
    by (auto simp: no_candidates_loop_set)
next
  assume "getCandidates ext s b = Inr cb"
  from getCandidates_ids [OF this] assms show "a \<notin> fst ` set cb"
    by (auto simp: no_candidates_loop_set)
qed

theorem getCandidates_excludes_loop_closings_witness:
  "(7, 1) \<in> set (lc_found ex_state)
   \<and> getCandidates ex_ext ex_state 7 = Inr [(0, - 4)] \<and> 1 \<notin> fst ` set [(0 :: int, - 4 :: real)]
   \<and> getCandidates ex_ext ex_state 1 = Inr [(0, - 3)] \<and> 7 \<notin> fst ` set [(0 :: int, - 3 :: real)]"
proof -
  have lc: "(7, 1) \<in> set (lc_found ex_state)" by (simp add: ex_state_def)
  show ?thesis
    using getCandidates_excludes_loop_closings [OF lc, of ex_ext "[(0, - 4)]" "[(0, - 3)]"]
      ex_getCandidates ex_getCandidates_1 lc
    by simp
qed

section \<open>Short hash tables\<close>

lemma getCandidates_short:
  "length (hash_table s) \<le> LC_NEIGHBORS ext \<Longrightarrow> getCandidates ext s cid = Inr []"
  by (simp add: getCandidates_def)

lemma getCandidates_no_history:
  assumes "length (hash_table s) = LC_NEIGHBORS ext + 1"
    and "0 \<le> cid" and "cid < int (length (hash_table s))"
  shows "getCandidates ext s cid = Inr []"
  using assms by (simp add: getCandidates_def vec_at_def Let_def std_sort_def)

text \<open>
  Claim C3, as stated, fails: with \<open>LC_NEIGHBORS + 1 = 6\<close> entries in the hash table and the
  query id \<open>10\<close>, the test \<^verbatim>\<open>hash_table_.size() <= LC_NEIGHBORS\<close> does not return, and
  \<^verbatim>\<open>hash_table_[cluster_id]\<close> reads outside the table.
\<close>

theorem getCandidates_short_table_counterexample:
  "length (hash_table ex_short) \<le> LC_NEIGHBORS ex_ext + 1
   \<and> getCandidates ex_ext ex_short 10 = Inl OutOfRange"
  by (simp add: getCandidates_def ex_ext_def ex_short_def ex_state_def vec_at_def)

text \<open>
  Claim C3, amended. With \<open>LC_NEIGHBORS + 1\<close> entries or fewer in the hash table,
  \<^verbatim>\<open>getCandidates\<close> returns the empty list for every query id that is an index of the table,
  and for every query id at all when the table has \<open>LC_NEIGHBORS\<close> entries or fewer.
\<close>

theorem getCandidates_short_table:
  assumes "length (hash_table s) \<le> LC_NEIGHBORS ext + 1"
    and "length (hash_table s) \<le> LC_NEIGHBORS ext
         \<or> (0 \<le> cluster_id \<and> cluster_id < int (length (hash_table s)))"
  shows "getCandidates ext s cluster_id = Inr []"
proof (cases "length (hash_table s) \<le> LC_NEIGHBORS ext")
  case True
  then show ?thesis by (rule getCandidates_short)
next
  case False
  with assms have "length (hash_table s) = LC_NEIGHBORS ext + 1"
    and "0 \<le> cluster_id" and "cluster_id < int (length (hash_table s))" by auto
  then show ?thesis by (rule getCandidates_no_history)
qed

theorem getCandidates_short_table_witness:
  "length (hash_table ex_short) \<le> LC_NEIGHBORS ex_ext + 1
   \<and> (0 :: int) \<le> 5 \<and> 5 < int (length (hash_table ex_short))
   \<and> getCandidates ex_ext ex_short 5 = Inr []
   \<and> length (hash_table (ex_short\<lparr>hash_table := take 5 (hash_table ex_short)\<rparr>)) \<le> LC_NEIGHBORS ex_ext
   \<and> getCandidates ex_ext (ex_short\<lparr>hash_table := take 5 (hash_table ex_short)\<rparr>) 10 = Inr []"
proof -
  have a: "length (hash_table ex_short) \<le> LC_NEIGHBORS ex_ext + 1"
    by (simp add: ex_short_def ex_state_def ex_ext_def)
  have b: "(0 :: int) \<le> 5 \<and> 5 < int (length (hash_table ex_short))"
    by (simp add: ex_short_def ex_state_def)
  have c: "length (hash_table (ex_short\<lparr>hash_table := take 5 (hash_table ex_short)\<rparr>))
             \<le> LC_NEIGHBORS ex_ext"
    by (simp add: ex_short_def ex_state_def ex_ext_def)
  from c have c': "length (hash_table (ex_short\<lparr>hash_table := take 5 (hash_table ex_short)\<rparr>))
             \<le> LC_NEIGHBORS ex_ext + 1" by simp
  show ?thesis
    using getCandidates_short_table [OF a, of 5] getCandidates_short_table [OF c', of 10] a b c
    by simp
qed

section \<open>Reading a cluster that is not there\<close>

text \<open>
  Claim C8. Reading never changes the engine's state (the store included), and for an id
  whose file is absent or cannot be opened the cluster returned is the default-constructed
  one; the result is a value, there is no error branch.
\<close>

theorem readCluster_missing_file:
  "snd (readCluster ext s i) = s
   \<and> (files s i = None \<or> files s i = Some Unreadable
        \<longrightarrow> fst (readCluster ext s i) = Cluster_default ext)"
  by (auto simp: readCluster_def split: option.splits stored_file.splits)

theorem readCluster_missing_file_witness:
  "files ex_state 3 = None \<and> files ex_state 2 = Some Unreadable
   \<and> readCluster ex_ext ex_state 3 = (Cluster_default ex_ext, ex_state)
   \<and> readCluster ex_ext ex_state 2 = (Cluster_default ex_ext, ex_state)"
proof -
  have a: "files ex_state 3 = None" and b: "files ex_state 2 = Some Unreadable"
    by (simp_all add: ex_state_def)
  show ?thesis
    using readCluster_missing_file [of ex_ext ex_state 3]
      readCluster_missing_file [of ex_ext ex_state 2] a b
    by (simp add: prod_eq_iff)
qed

section \<open>Ranking of the candidates\<close>

lemma insert_sorted_ranked:
  "sorted_wrt ranked_before ys \<Longrightarrow> sorted_wrt ranked_before (insert_sorted sortByMatching x ys)"
proof (induction ys)
  case Nil
  show ?case by simp
next
  case (Cons y ys)
  show ?case
  proof (cases "sortByMatching x y")
    case True
    then have xy: "ranked_before x y"
      by (auto simp: sortByMatching_def ranked_before_def)
    have "ranked_before x z" if "z \<in> set ys" for z
    proof -
      from Cons.prems that have "ranked_before y z" by simp
      with True show ?thesis
        by (auto simp: sortByMatching_def ranked_before_def)
    qed
    with True xy Cons.prems show ?thesis by simp
  next
    case False
    then have "ranked_before y x"
      by (auto simp: sortByMatching_def ranked_before_def)
    with False Cons show ?thesis by (auto simp: set_insert_sorted)
  qed
qed

lemma std_sort_ranked: "sorted_wrt ranked_before (std_sort sortByMatching xs)"
  unfolding std_sort_def by (induction xs) (simp_all add: insert_sorted_ranked)

lemma sorted_wrt_take_ranked: "sorted_wrt ranked_before xs \<Longrightarrow> sorted_wrt ranked_before (take n xs)"
  by (induction xs arbitrary: n) (auto simp: take_Cons split: nat.splits dest: in_set_takeD)

lemma ex_long_getCandidates:
  "getCandidates ex_ext ex_long 12 = Inr [(3, 0), (5, - 1), (1, - 3), (2, - 3), (0, - 6)]"
  by code_simp

lemma ex_short_getCandidates: "getCandidates ex_ext ex_short 5 = Inr []"
  by (simp add: getCandidates_def ex_ext_def ex_short_def ex_state_def vec_at_def std_sort_def
      Let_def)

text \<open>
  Claim C9. A candidate list returned by \<^verbatim>\<open>getCandidates\<close> has at most five entries and
  is ordered descending by score, ties broken by the lower id (the comparator being the one
  the spec describes); and when the list returned for the current cluster is empty,
  \<^verbatim>\<open>searchByHash\<close> returns with the engine's state as it was.
\<close>

theorem getCandidates_best_five:
  assumes "getCandidates ext s cluster_id = Inr candidates"
  shows "length candidates \<le> 5 \<and> sorted_wrt ranked_before candidates
       \<and> (candidates = [] \<and> cluster_id = getId (c_cluster s) \<longrightarrow> searchByHash ext s = Inr s)"
proof (intro conjI impI)
  show "length candidates \<le> 5"
    using assms by (auto simp: getCandidates_def Let_def split: if_splits sum.splits)
  show "sorted_wrt ranked_before candidates"
    using assms
    by (auto simp: getCandidates_def Let_def std_sort_ranked sorted_wrt_take_ranked
        split: if_splits sum.splits)
  assume "candidates = [] \<and> cluster_id = getId (c_cluster s)"
  with assms show "searchByHash ext s = Inr s" by (simp add: searchByHash_def)
qed

theorem getCandidates_best_five_witness:
  "getCandidates ex_ext ex_long 12 = Inr [(3, 0), (5, - 1), (1, - 3), (2, - 3), (0, - 6)]
   \<and> sorted_wrt ranked_before [(3, 0), (5, - 1), (1, - 3), (2, - 3), (0, - 6)]
   \<and> getCandidates ex_ext ex_short 5 = Inr [] \<and> 5 = getId (c_cluster ex_short)
   \<and> searchByHash ex_ext ex_short = Inr ex_short"
proof -
  have "5 = getId (c_cluster ex_short)"
    by (simp add: ex_short_def ex_cluster_def Cluster_def)
  then show ?thesis
    using getCandidates_best_five [OF ex_long_getCandidates]
      getCandidates_best_five [OF ex_short_getCandidates]
      ex_long_getCandidates ex_short_getCandidates
    by simp
qed

section \<open>The queue is first in, first out\<close>

lemma processNewCluster_front:
  "cluster_queue s = x # q \<Longrightarrow>
   \<exists>s'. processNewCluster ext s = Inr s' \<and> c_cluster s' = x \<and> cluster_queue s' = q"
  by (simp add: processNewCluster_def Let_def)

lemma run_schedule_order:
  "\<exists>out s'. run_schedule ext es s = Inr (out, s')
     \<and> out @ cluster_queue s' = cluster_queue s @ enqueued es"
proof (induction es arbitrary: s)
  case Nil
  show ?case by simp
next
  case (Cons e es)
  show ?case
  proof (cases e)
    case (Enqueue c)
    from Cons.IH [of "addClusterToQueue c s"] Enqueue show ?thesis
      by (simp add: addClusterToQueue_def)
  next
    case ProcessNext
    show ?thesis
    proof (cases "cluster_queue s")
      case Nil
      with Cons.IH [of s] ProcessNext show ?thesis
        by (simp add: checkNewClusterInQueue_def)
    next
      case (Cons x q)
      from processNewCluster_front [OF Cons, of ext] obtain s1 where
        s1: "processNewCluster ext s = Inr s1" "c_cluster s1 = x" "cluster_queue s1 = q"
        by blast
      from Cons.IH [of s1] obtain out s' where
        "run_schedule ext es s1 = Inr (out, s')"
        "out @ cluster_queue s' = cluster_queue s1 @ enqueued es" by blast
      with s1 Cons ProcessNext show ?thesis
        by (simp add: checkNewClusterInQueue_def)
    qed
  qed
qed

text \<open>
  Claim C10. \<^verbatim>\<open>addClusterToQueue\<close> appends at the back; \<^verbatim>\<open>processNewCluster\<close> takes the
  front element off the queue and makes it the current cluster; and under every schedule
  of enqueues and processing steps the clusters processed so far, followed by those still
  waiting, are the clusters that were waiting at the start followed by the enqueued ones,
  in the order of their enqueueing.
\<close>

theorem cluster_queue_fifo:
  "cluster_queue (addClusterToQueue c s) = cluster_queue s @ [c]
   \<and> (\<forall>x q. cluster_queue s = x # q \<longrightarrow>
        (\<exists>s'. processNewCluster ext s = Inr s' \<and> c_cluster s' = x \<and> cluster_queue s' = q))
   \<and> (\<exists>out s'. run_schedule ext es s = Inr (out, s')
        \<and> out @ cluster_queue s' = cluster_queue s @ enqueued es)"
  using run_schedule_order [of ext es s]
  by (auto simp: addClusterToQueue_def dest: processNewCluster_front)

theorem cluster_queue_fifo_witness:
  "cluster_queue ex_queue = [ex_cluster 8, ex_cluster 9]
   \<and> (\<exists>s'. processNewCluster ex_ext ex_queue = Inr s' \<and> c_cluster s' = ex_cluster 8
         \<and> cluster_queue s' = [ex_cluster 9])
   \<and> (\<exists>s'. run_schedule ex_ext
              [ProcessNext, Enqueue (ex_cluster 10), ProcessNext, ProcessNext, ProcessNext,
               Enqueue (ex_cluster 11)] ex_queue
            = Inr ([ex_cluster 8, ex_cluster 9, ex_cluster 10], s')
         \<and> cluster_queue s' = [ex_cluster 11])"
proof -
  have q: "cluster_queue ex_queue = [ex_cluster 8, ex_cluster 9]"
    by (simp add: ex_queue_def)
  have "\<exists>s'. processNewCluster ex_ext ex_queue = Inr s' \<and> c_cluster s' = ex_cluster 8
         \<and> cluster_queue s' = [ex_cluster 9]"
    using cluster_queue_fifo [of "ex_cluster 8" ex_queue ex_ext "[]"] q by blast
  moreover have "\<exists>s'. run_schedule ex_ext
              [ProcessNext, Enqueue (ex_cluster 10), ProcessNext, ProcessNext, ProcessNext,
               Enqueue (ex_cluster 11)] ex_queue
            = Inr ([ex_cluster 8, ex_cluster 9, ex_cluster 10], s')
         \<and> cluster_queue s' = [ex_cluster 11]"
    by (simp add: ex_queue_def processNewCluster_def addClusterToQueue_def
        checkNewClusterInQueue_def Let_def)
  ultimately show ?thesis using q by simp
qed

section \<open>The search by hash confirms nothing\<close>

lemma run_iteration_records_nothing:
  "run_iteration ext s = Inr s' \<Longrightarrow> lc_found s' = lc_found s \<and> graph_edges s' = graph_edges s"
  by (auto simp: run_iteration_def searchByHash_def processNewCluster_def Let_def
      split: if_splits sum.splits list.splits)

text \<open>
  Claim C1 asks that a candidate whose inlier count clears the minimum is recorded as a
  loop closing and gets an edge in the graph. In \<open>ex_revisit\<close> the candidate search returns
  five candidates, the best of them cluster \<open>3\<close>; matching the current cluster against it
  pools 52 correspondences and the pose solver finds all 52 to be inliers; and
  \<^verbatim>\<open>searchByHash\<close> returns with the engine as it was: no record, no edge.
\<close>

theorem searchByHash_confirms_nothing:
  "getCandidates ex_ext ex_revisit (getId (c_cluster ex_revisit))
     = Inr [(3, 0), (5, - 1), (1, - 3), (2, - 3), (0, - 6)]
   \<and> match_neighbor ex_ext (c_cluster ex_revisit) (fst (readCluster ex_ext ex_revisit 3)) ([], [])
       = Inr (replicate 52 (5, 6), replicate 52 (1, 2, 3))
   \<and> solvePnPRansac ex_ext (replicate 52 (1, 2, 3)) (replicate 52 (5, 6))
       (camera_matrix ex_revisit) (MAX_INLIERS ex_ext) = Some (map int [0 ..< 52])
   \<and> lc_found ex_revisit = [] \<and> graph_edges ex_revisit = []
   \<and> searchByHash ex_ext ex_revisit = Inr ex_revisit"
proof -
  have 1: "getCandidates ex_ext ex_revisit (getId (c_cluster ex_revisit))
     = Inr [(3, 0), (5, - 1), (1, - 3), (2, - 3), (0, - 6)]" by code_simp
  have 2: "match_neighbor ex_ext (c_cluster ex_revisit) (fst (readCluster ex_ext ex_revisit 3)) ([], [])
       = Inr (replicate 52 (5, 6), replicate 52 (1, 2, 3))" by code_simp
  have 3: "solvePnPRansac ex_ext (replicate 52 (1, 2, 3)) (replicate 52 (5, 6))
       (camera_matrix ex_revisit) (MAX_INLIERS ex_ext) = Some (map int [0 ..< 52])" by code_simp
  have 4: "lc_found ex_revisit = [] \<and> graph_edges ex_revisit = []" by code_simp
  have 5: "searchByHash ex_ext ex_revisit = Inr ex_revisit"
    using 1 by (simp add: searchByHash_def)
  from 1 2 3 4 5 show ?thesis by blast
qed

section \<open>The walk over the neighbors\<close>

lemma ids_down_snoc: "lo \<le> hi \<Longrightarrow> ids_down hi (lo + 1) @ [lo] = ids_down hi lo"
  by (simp add: ids_down_def upto_rec1 [of lo hi])

lemma length_ids_down: "length (ids_down hi lo) = nat (hi - lo + 1)"
  by (simp add: ids_down_def)

lemma pool_neighbors_append:
  "pool_neighbors ext s (js @ ks) acc = pool_neighbors ext s ks (pool_neighbors ext s js acc)"
  by (induction js arbitrary: acc) (simp_all split: sum.splits)

lemma nb_inv_init: "nb_inv ext s (nb_init s)"
  by (simp add: nb_inv_def nb_init_def ids_down_def)

lemma nb_body_visited: "visited (nb_body ext s st) = visited st @ [neighbor_id st]"
  by (simp add: nb_body_def Let_def split: sum.splits)

lemma nb_body_matched_against:
  "matched_against (nb_body ext s st)
     = matched_against st @ (if other_frame ext s (neighbor_id st) then [neighbor_id st] else [])"
  by (simp add: nb_body_def other_frame_def Let_def split: sum.splits)

lemma nb_body_neighbor_id: "neighbor_id (nb_body ext s st) = neighbor_id st - 1"
  by (simp add: nb_body_def Let_def split: sum.splits)

lemma nb_body_processed:
  "processed_neighbors (nb_body ext s st)
     = processed_neighbors st + (if other_frame ext s (neighbor_id st) then 1 else 0)"
  by (simp add: nb_body_def other_frame_def Let_def split: sum.splits)

text \<open>
  One iteration pools what matching against the neighbor just read gives when the neighbor
  is of another frame, and leaves the pools and the failure alone when it is of the frame
  of the current cluster.
\<close>

lemma nb_body_pools_step:
  "((matched_kp (nb_body ext s st), matched_points (nb_body ext s st)), failure (nb_body ext s st))
     = pool_neighbors ext s
         (if other_frame ext s (neighbor_id st) then [neighbor_id st] else [])
         ((matched_kp st, matched_points st), failure st)"
  by (simp add: nb_body_def other_frame_def Let_def split: sum.splits)

lemma nb_inv_body:
  assumes "nb_inv ext s st" and "nb_continue ext st"
  shows "nb_inv ext s (nb_body ext s st)"
proof -
  let ?st' = "nb_body ext s st"
  from assms(2) have p: "processed_neighbors st < int (LC_NEIGHBORS ext)"
    and n: "0 \<le> neighbor_id st" by (simp_all add: nb_continue_def)
  from assms(1) have le: "neighbor_id st \<le> getId (c_cluster s) - 1"
    and v: "visited st = ids_down (getId (c_cluster s) - 1) (neighbor_id st + 1)"
    and m: "matched_against st = filter (other_frame ext s) (visited st)"
    and c: "processed_neighbors st = int (length (matched_against st))"
    and pl: "((matched_kp st, matched_points st), failure st)
               = pool_neighbors ext s (matched_against st) (([], []), None)"
    unfolding nb_inv_def by blast+
  have 1: "neighbor_id ?st' \<le> getId (c_cluster s) - 1"
    using le by (simp add: nb_body_neighbor_id)
  have 2: "min (- 1) (getId (c_cluster s) - 1) \<le> neighbor_id ?st'"
    using n by (simp add: nb_body_neighbor_id min_def)
  have 3: "visited ?st' = ids_down (getId (c_cluster s) - 1) (neighbor_id ?st' + 1)"
    unfolding nb_body_visited nb_body_neighbor_id v using le by (simp add: ids_down_snoc)
  have 4: "matched_against ?st' = filter (other_frame ext s) (visited ?st')"
    unfolding nb_body_visited nb_body_matched_against m by simp
  have 5: "processed_neighbors ?st' = int (length (matched_against ?st'))"
    using c by (simp add: nb_body_processed nb_body_matched_against)
  have 6: "length (matched_against ?st') \<le> LC_NEIGHBORS ext"
    using p c by (simp add: nb_body_matched_against)
  have 7: "visited ?st' \<noteq> [] \<longrightarrow>
             length (filter (other_frame ext s) (butlast (visited ?st'))) < LC_NEIGHBORS ext"
    using p c m by (simp add: nb_body_visited)
  have 8: "((matched_kp ?st', matched_points ?st'), failure ?st')
             = pool_neighbors ext s (matched_against ?st') (([], []), None)"
    unfolding nb_body_pools_step nb_body_matched_against pool_neighbors_append pl ..
  from 1 2 3 4 5 6 7 8 show ?thesis unfolding nb_inv_def by blast
qed

lemma neighbors_loop_inv:
  "nb_inv ext s st \<Longrightarrow>
   nb_inv ext s (neighbors_loop ext s st) \<and> \<not> nb_continue ext (neighbors_loop ext s st)"
proof (induction ext s st rule: neighbors_loop.induct)
  case (1 ext s st)
  show ?case
  proof (cases "nb_continue ext st")
    case True
    with 1 show ?thesis by (simp add: neighbors_loop.simps [of ext s st] nb_inv_body)
  next
    case False
    with 1 show ?thesis by (simp add: neighbors_loop.simps [of ext s st])
  qed
qed

lemma ids_down_prefix:
  assumes "0 \<le> lo"
  shows "ids_down hi lo = take (length (ids_down hi lo)) (ids_down hi 0)"
proof (cases "lo \<le> hi")
  case True
  with assms have "[0..hi] = [0..lo - 1] @ [lo..hi]" by (rule upto_split1)
  then show ?thesis by (simp add: ids_down_def)
next
  case False
  then show ?thesis by (simp add: ids_down_def)
qed

lemma ex_walk_loop:
  "neighbors_loop ex_ext ex_walk (nb_init ex_walk) =
     \<lparr>processed_neighbors = 5, neighbor_id = 1, matched_kp = replicate 52 (5, 6),
      matched_points = replicate 52 (1, 2, 3), visited = [7, 6, 5, 4, 3, 2],
      matched_against = [6, 5, 4, 3, 2], failure = None\<rparr>"
  by code_simp

text \<open>
  With the file of cluster \<open>5\<close> gone, the cluster read back for it is the default one, of
  another frame and without descriptors: the percentage is not a number, the walk counts
  the neighbor and goes on to cluster \<open>2\<close>.
\<close>

lemma ex_gap_loop:
  "neighbors_loop ex_ext ex_gap (nb_init ex_gap) =
     \<lparr>processed_neighbors = 5, neighbor_id = 1, matched_kp = replicate 52 (5, 6),
      matched_points = replicate 52 (1, 2, 3), visited = [7, 6, 5, 4, 3, 2],
      matched_against = [6, 5, 4, 3, 2], failure = Some FloatToIntUndefined\<rparr>"
  by code_simp

text \<open>
  Claim C5. In the state \<open>st\<close> the loop of \<^verbatim>\<open>searchInNeigborhood\<close> ends in, for every
  engine and every current cluster: the ids read are an initial part of
  \<open>id - 1, id - 2, \<dots>, 0\<close>, and \<open>neighbor_id\<close> is the next id below them; descriptors were
  matched against exactly those of them whose cluster has another frame id than the
  current cluster, so never against a cluster of the same frame; the pools are what
  matching against these neighbors of other frames, one after the other, pools, a neighbor
  of the same frame adding nothing; the counter is the number of the neighbors of other
  frames; before the last read it was below \<open>LC_NEIGHBORS\<close>; and at the end either it is
  \<open>LC_NEIGHBORS\<close> or every id down to \<open>0\<close> has been read.
\<close>

theorem neighborhood_walk:
  assumes "st = neighbors_loop ext s (nb_init s)"
  shows "visited st = take (length (visited st)) (ids_down (getId (c_cluster s) - 1) 0)
       \<and> neighbor_id st = getId (c_cluster s) - 1 - int (length (visited st))
       \<and> matched_against st = filter (other_frame ext s) (visited st)
       \<and> ((matched_kp st, matched_points st), failure st)
           = pool_neighbors ext s (filter (other_frame ext s) (visited st)) (([], []), None)
       \<and> processed_neighbors st = int (length (filter (other_frame ext s) (visited st)))
       \<and> (visited st \<noteq> [] \<longrightarrow>
            length (filter (other_frame ext s) (butlast (visited st))) < LC_NEIGHBORS ext)
       \<and> (length (filter (other_frame ext s) (visited st)) = LC_NEIGHBORS ext
            \<or> (length (filter (other_frame ext s) (visited st)) < LC_NEIGHBORS ext
                \<and> visited st = ids_down (getId (c_cluster s) - 1) 0))"
proof -
  from neighbors_loop_inv [OF nb_inv_init, of ext s] assms
  have inv: "nb_inv ext s st" and stop: "\<not> nb_continue ext st" by simp_all
  from inv have v: "visited st = ids_down (getId (c_cluster s) - 1) (neighbor_id st + 1)"
    and lo: "min (- 1) (getId (c_cluster s) - 1) \<le> neighbor_id st"
    and le: "neighbor_id st \<le> getId (c_cluster s) - 1"
    and m: "matched_against st = filter (other_frame ext s) (visited st)"
    and c: "processed_neighbors st = int (length (matched_against st))"
    and b: "length (matched_against st) \<le> LC_NEIGHBORS ext"
    and l: "visited st \<noteq> [] \<longrightarrow>
              length (filter (other_frame ext s) (butlast (visited st))) < LC_NEIGHBORS ext"
    and pl: "((matched_kp st, matched_points st), failure st)
               = pool_neighbors ext s (matched_against st) (([], []), None)"
    unfolding nb_inv_def by blast+
  have pre: "visited st = take (length (visited st)) (ids_down (getId (c_cluster s) - 1) 0)"
  proof (cases "0 \<le> neighbor_id st + 1")
    case True
    from ids_down_prefix [OF True] v show ?thesis by simp
  next
    case False
    with lo le have "visited st = []" unfolding v
      by (auto simp: ids_down_def min_def split: if_splits)
    then show ?thesis by simp
  qed
  have nid: "neighbor_id st = getId (c_cluster s) - 1 - int (length (visited st))"
    unfolding v length_ids_down using le by simp
  have fin: "length (matched_against st) = LC_NEIGHBORS ext
               \<or> (length (matched_against st) < LC_NEIGHBORS ext
                    \<and> visited st = ids_down (getId (c_cluster s) - 1) 0)"
  proof (cases "processed_neighbors st < int (LC_NEIGHBORS ext)")
    case True
    with stop have neg: "neighbor_id st < 0" by (simp add: nb_continue_def)
    have "visited st = ids_down (getId (c_cluster s) - 1) 0"
    proof (cases "0 \<le> getId (c_cluster s)")
      case True
      with lo neg have "neighbor_id st = - 1" by simp
      with v show ?thesis by simp
    next
      case False
      with lo le v show ?thesis by (simp add: ids_down_def min_def)
    qed
    with True c show ?thesis by simp
  next
    case False
    with c b show ?thesis by linarith
  qed
  from pre nid m pl c l fin show ?thesis by simp
qed

theorem neighborhood_walk_witness:
  "neighbors_loop ex_ext ex_walk (nb_init ex_walk) =
     \<lparr>processed_neighbors = 5, neighbor_id = 1, matched_kp = replicate 52 (5, 6),
      matched_points = replicate 52 (1, 2, 3), visited = [7, 6, 5, 4, 3, 2],
      matched_against = [6, 5, 4, 3, 2], failure = None\<rparr>
   \<and> [7, 6, 5, 4, 3, 2]
       = take (length [7 :: int, 6, 5, 4, 3, 2]) (ids_down (getId (c_cluster ex_walk) - 1) 0)
   \<and> 1 = getId (c_cluster ex_walk) - 1 - int (length [7 :: int, 6, 5, 4, 3, 2])
   \<and> [6, 5, 4, 3, 2] = filter (other_frame ex_ext ex_walk) [7, 6, 5, 4, 3, 2]
   \<and> ((replicate 52 (5, 6), replicate 52 (1, 2, 3)), None)
       = pool_neighbors ex_ext ex_walk (filter (other_frame ex_ext ex_walk) [7, 6, 5, 4, 3, 2])
           (([], []), None)
   \<and> 5 = int (length (filter (other_frame ex_ext ex_walk) [7, 6, 5, 4, 3, 2]))
   \<and> length (filter (other_frame ex_ext ex_walk) (butlast [7, 6, 5, 4, 3, 2])) < LC_NEIGHBORS ex_ext
   \<and> neighbors_loop ex_ext ex_gap (nb_init ex_gap) =
     \<lparr>processed_neighbors = 5, neighbor_id = 1, matched_kp = replicate 52 (5, 6),
      matched_points = replicate 52 (1, 2, 3), visited = [7, 6, 5, 4, 3, 2],
      matched_against = [6, 5, 4, 3, 2], failure = Some FloatToIntUndefined\<rparr>
   \<and> [6, 5, 4, 3, 2] = filter (other_frame ex_ext ex_gap) [7, 6, 5, 4, 3, 2]
   \<and> ((replicate 52 (5, 6), replicate 52 (1, 2, 3)), Some FloatToIntUndefined)
       = pool_neighbors ex_ext ex_gap (filter (other_frame ex_ext ex_gap) [7, 6, 5, 4, 3, 2])
           (([], []), None)"
proof -
  note W = neighborhood_walk [OF refl, of ex_ext ex_walk, unfolded ex_walk_loop,
      simplified nb_state.select_convs]
  note G = neighborhood_walk [OF refl, of ex_ext ex_gap, unfolded ex_gap_loop,
      simplified nb_state.select_convs]
  have ne: "[7 :: int, 6, 5, 4, 3, 2] \<noteq> []" by simp
  from W G ne ex_walk_loop ex_gap_loop show ?thesis by blast
qed

section \<open>What a neighbor contributes\<close>




text \<open>
  Matching against a neighbor does not run into undefined behaviour when both clusters
  have descriptors and the indices of the matches are in range.
\<close>

lemma matches_loop_returns:
  assumes "\<forall>m \<in> set ms. 0 \<le> queryIdx m \<and> queryIdx m < int (length kp)
                       \<and> 0 \<le> trainIdx m \<and> trainIdx m < int (length pts)"
  shows "\<exists>p. matches_loop kp pts pose ms pools = Inr p"
  using assms by (induction ms arbitrary: pools) (simp_all add: vec_at_def)

lemma match_neighbor_returns:
  assumes "min (rows (getOrb cur)) (rows (getOrb nb)) \<noteq> 0"
    and "\<forall>m \<in> set (ratioMatching ext (getOrb cur) (getOrb nb)).
           0 \<le> queryIdx m \<and> queryIdx m < int (length (getKp cur))
           \<and> 0 \<le> trainIdx m \<and> trainIdx m < int (length (getPoints nb))"
  shows "\<exists>p. match_neighbor ext cur nb pools = Inr p"
  using assms(1) matches_loop_returns [OF assms(2)]
  by (simp add: match_neighbor_def m_percentage_def Let_def)





section \<open>The pose solver is always called\<close>

lemma neighbors_loop_first:
  "getId (c_cluster s) \<le> 0 \<Longrightarrow> neighbors_loop ext s (nb_init s) = nb_init s"
proof -
  assume "getId (c_cluster s) \<le> 0"
  then have "\<not> nb_continue ext (nb_init s)" by (simp add: nb_continue_def nb_init_def)
  then show ?thesis by (subst neighbors_loop.simps) simp
qed

lemma ex_first_id: "getId (c_cluster ex_first) \<le> 0"
  by code_simp

lemma ex_walk_failure: "failure (neighbors_loop ex_ext ex_walk (nb_init ex_walk)) = None"
  by code_simp

lemma ex_solver_empty: "solvePnPRansac ex_ext [] [] (camera_matrix ex_first) (MAX_INLIERS ex_ext) = None"
  by code_simp

lemma ex_solver_walk:
  "solvePnPRansac ex_ext (matched_points (neighbors_loop ex_ext ex_walk (nb_init ex_walk)))
     (matched_kp (neighbors_loop ex_ext ex_walk (nb_init ex_walk))) (camera_matrix ex_walk)
     (MAX_INLIERS ex_ext) = Some (map int [0 ..< 52])"
  by code_simp

text \<open>
  Claim C2, as stated, fails: for the first cluster, id \<open>0\<close>, both pools are empty, and
  \<^verbatim>\<open>searchInNeigborhood\<close> hands them to the pose solver all the same; with a solver that
  throws on fewer than four correspondences the step throws.
\<close>

theorem searchInNeigborhood_counterexample:
  "matched_points (neighbors_loop ex_ext ex_first (nb_init ex_first)) = []
   \<and> matched_kp (neighbors_loop ex_ext ex_first (nb_init ex_first)) = []
   \<and> searchInNeigborhood ex_ext ex_first = Inl SolverException"
  by code_simp

text \<open>
  Claim C2, amended. When the loop does not run into undefined behaviour,
  \<^verbatim>\<open>searchInNeigborhood\<close> hands the two pools to the pose solver whatever their size, also
  when they are empty or hold fewer than four correspondences: it throws exactly when the
  solver does, and reports the number of inliers the solver returns otherwise. For a
  current cluster of id \<open>0\<close> or less the pools so handed over are empty.
\<close>

theorem searchInNeigborhood_outcome:
  "(failure (neighbors_loop ext s (nb_init s)) = None \<longrightarrow>
      searchInNeigborhood ext s =
        (case solvePnPRansac ext (matched_points (neighbors_loop ext s (nb_init s)))
                (matched_kp (neighbors_loop ext s (nb_init s))) (camera_matrix s) (MAX_INLIERS ext) of
           None \<Rightarrow> Inl SolverException
         | Some inliers \<Rightarrow>
             Inr (processed_neighbors (neighbors_loop ext s (nb_init s)),
                  length (matched_points (neighbors_loop ext s (nb_init s))), length inliers)))
   \<and> (getId (c_cluster s) \<le> 0 \<longrightarrow>
        searchInNeigborhood ext s =
          (case solvePnPRansac ext [] [] (camera_matrix s) (MAX_INLIERS ext) of
             None \<Rightarrow> Inl SolverException
           | Some inliers \<Rightarrow> Inr (0, 0, length inliers)))"
proof (intro conjI impI)
  assume "failure (neighbors_loop ext s (nb_init s)) = None"
  then show "searchInNeigborhood ext s =
        (case solvePnPRansac ext (matched_points (neighbors_loop ext s (nb_init s)))
                (matched_kp (neighbors_loop ext s (nb_init s))) (camera_matrix s) (MAX_INLIERS ext) of
           None \<Rightarrow> Inl SolverException
         | Some inliers \<Rightarrow>
             Inr (processed_neighbors (neighbors_loop ext s (nb_init s)),
                  length (matched_points (neighbors_loop ext s (nb_init s))), length inliers))"
    by (simp add: searchInNeigborhood_def Let_def)
next
  assume "getId (c_cluster s) \<le> 0"
  then have eq: "neighbors_loop ext s (nb_init s) = nb_init s" by (rule neighbors_loop_first)
  show "searchInNeigborhood ext s =
          (case solvePnPRansac ext [] [] (camera_matrix s) (MAX_INLIERS ext) of
             None \<Rightarrow> Inl SolverException
           | Some inliers \<Rightarrow> Inr (0, 0, length inliers))"
    unfolding searchInNeigborhood_def Let_def eq by (simp add: nb_init_def split: option.splits)
qed

theorem searchInNeigborhood_outcome_witness:
  "failure (neighbors_loop ex_ext ex_walk (nb_init ex_walk)) = None
   \<and> searchInNeigborhood ex_ext ex_walk
       = Inr (processed_neighbors (neighbors_loop ex_ext ex_walk (nb_init ex_walk)),
              length (matched_points (neighbors_loop ex_ext ex_walk (nb_init ex_walk))), 52)
   \<and> getId (c_cluster ex_first) \<le> 0
   \<and> searchInNeigborhood ex_ext ex_first = Inl SolverException"
  using searchInNeigborhood_outcome [of ex_ext ex_walk] searchInNeigborhood_outcome [of ex_ext ex_first]
    ex_first_id ex_walk_failure ex_solver_empty ex_solver_walk
  by simp

end
